theory Spec2Isabelle
  imports Complex_Main "HOL-Library.Word"
begin

unbundle bit_operations_syntax

section \<open>The transport and routing core of the CANopen stack\<close>

text \<open>
  The development follows \<^verbatim>\<open>canopen/__init__.py\<close>: the classes \<^verbatim>\<open>Network\<close>,
  \<^verbatim>\<open>Node\<close> and \<^verbatim>\<open>MessageDispatcher\<close>. Python integers are \<open>int\<close>, so
  \<^verbatim>\<open>&\<close> is \<open>AND\<close> on \<open>int\<close> (two's complement on both sides). Objects that
  are shared and mutated (the Nodes) live in an explicit store and are named by
  references; a Python \<^verbatim>\<open>dict\<close> is an association list whose order is the
  iteration order of the dictionary (the order matters only for which Nodes a
  broadcast that ends early has reached). The fields \<^verbatim>\<open>id\<close> of a Node and \<^verbatim>\<open>nmt\<close> of the Network
  are written \<open>id'\<close> and \<open>net_nmt\<close>.
  Service callbacks are callables of other modules. Calling one is recorded in a log
  of invocations, in the order the calls are made, and then runs the callable: what it
  does is a parameter of routing, a function from the world it finds to the world it
  leaves, or to the exception it raises. An exception is a value \<open>Inl (e, w)\<close>: the
  error, and the world as it is when the exception leaves the function.
\<close>

subsection \<open>Python dictionaries\<close>

type_synonym ('k, 'v) dict = "('k \<times> 'v) list"

datatype error =
  ResolutionError | AttributeError | KeyError | RuntimeError | ValueError
  | AssertionError | Empty | CallbackError

text \<open>\<^verbatim>\<open>d[k]\<close>, which raises \<^verbatim>\<open>KeyError\<close> for a missing key, and \<^verbatim>\<open>k in d\<close>.\<close>

definition dict_getitem :: "('k, 'v) dict \<Rightarrow> 'k \<Rightarrow> error + 'v" where
  "dict_getitem d k = (case map_of d k of None \<Rightarrow> Inl KeyError | Some v \<Rightarrow> Inr v)"

definition dict_contains :: "'k \<Rightarrow> ('k, 'v) dict \<Rightarrow> bool" where
  "dict_contains k d = (map_of d k \<noteq> None)"

text \<open>\<^verbatim>\<open>d[k] = v\<close>: a key that is present keeps its place, a new key goes last.\<close>

fun dict_set :: "'k \<Rightarrow> 'v \<Rightarrow> ('k, 'v) dict \<Rightarrow> ('k, 'v) dict" where
  "dict_set k v [] = [(k, v)]"
| "dict_set k v ((k', v') # d) =
     (if k' = k then (k', v) # d else (k', v') # dict_set k v d)"

text \<open>\<^verbatim>\<open>d.values()\<close> and \<^verbatim>\<open>d.keys()\<close>, in iteration order.\<close>

definition dict_values :: "('k, 'v) dict \<Rightarrow> 'v list" where
  "dict_values d = map snd d"

definition dict_keys :: "('k, 'v) dict \<Rightarrow> 'k list" where
  "dict_keys d = map fst d"

subsection \<open>Constants\<close>

definition SDO_RESPONSE :: int where "SDO_RESPONSE = 0x580"
definition HEARTBEAT :: int where "HEARTBEAT = 0x700"

subsection \<open>Data model\<close>

type_synonym ref = nat
type_synonym payload = "8 word list"

text \<open>
  A callable stored in a Service Table. The two bound methods a Node registers for
  itself are named by the Node that owns the engine; any other callable is a handle.
\<close>

datatype callback = Sdo_on_response ref | Nmt_on_response ref | Handler nat

text \<open>
  Modelled from the spec: the protocol engines \<^verbatim>\<open>sdo.Node\<close> and \<^verbatim>\<open>nmt.Node\<close> are
  not part of the routing core. The state-transfer engine is constructed with
  \<open>(node_address, object_dictionary)\<close>, the heartbeat engine with the node address;
  each has a \<^verbatim>\<open>parent\<close> attribute the Node sets.
\<close>

record 'od sdo_Node =
  sdo_id :: int
  sdo_object_dictionary :: 'od
  sdo_parent :: "ref option"

record nmt_Node =
  nmt_id :: int
  nmt_parent :: "ref option"

datatype network_ref = This_network | Other_network nat

record 'od Node =
  id' :: int
  network :: "network_ref option"
  service_callbacks :: "(int, callback) dict"
  object_dictionary :: 'od
  sdo :: "'od sdo_Node"
  nmt :: nmt_Node

text \<open>
  Modelled from the spec: a frame of the Bus Transport exposes its identifier, its
  payload and the three flags (extended addressing, error frame, remote request); the
  transport records the frames handed to \<^verbatim>\<open>send\<close>, oldest first.
\<close>

record Message =
  id_type :: bool
  is_error_frame :: bool
  is_remote_frame :: bool
  arbitration_id :: int
  data :: payload

record Bus =
  sent :: "Message list"
  is_shutdown :: bool

record Network =
  bus :: "Bus option"
  dispatcher :: network_ref
  notifier :: "unit option"
  nodes :: "(int, ref) dict"
  tx_queue :: "(int \<times> payload) list"
  net_nmt :: nmt_Node

text \<open>
  The world of one Network: the Network object, the store of Node objects with its
  allocation counter, the log of callback invocations (which Node's table was used,
  the callable, and its two arguments) and the log of failed sends (the frame whose
  \<^verbatim>\<open>send\<close> raised, for each \<^verbatim>\<open>logger.error\<close>).
\<close>

record 'od world =
  net :: Network
  heap :: "ref \<Rightarrow> 'od Node"
  next_ref :: ref
  invoked :: "(ref \<times> callback \<times> int \<times> payload) list"
  logged :: "Message list"

text \<open>
  What the callables do when they are called with an identifier and a payload:
  \<open>Inr\<close> the world the callable leaves when it returns, \<open>Inl\<close> the exception it
  raises. A callable may do anything to the world: raise, queue a frame, register a
  Node or a service.
\<close>

type_synonym 'od callbacks =
  "callback \<Rightarrow> int \<Rightarrow> payload \<Rightarrow> 'od world \<Rightarrow> error \<times> 'od world + 'od world"

text \<open>Callables that return and leave the world as they found it.\<close>

definition returning :: "'od callbacks" where
  "returning cb can_id dat w = Inr w"

subsection \<open>Node\<close>

definition register_service :: "'od Node \<Rightarrow> int \<Rightarrow> callback \<Rightarrow> 'od Node" where
  "register_service self cob_id callback =
     self\<lparr>service_callbacks := dict_set cob_id callback (service_callbacks self)\<rparr>"

text \<open>
  \<^verbatim>\<open>Node.__init__\<close>. The resolver \<^verbatim>\<open>objectdictionary.import_any\<close> is a parameter:
  it returns the resolved description or fails, and its failure propagates. \<open>self\<close> is
  the reference of the object under construction.
\<close>

definition Node_init :: "('d \<Rightarrow> error + 'od) \<Rightarrow> ref \<Rightarrow> int \<Rightarrow> 'd \<Rightarrow> error + 'od Node" where
  "Node_init import_any self node_id description =
     (case import_any description of
        Inl e \<Rightarrow> Inl e
      | Inr od \<Rightarrow>
          let n0 = \<lparr>id' = node_id, network = None, service_callbacks = [],
                    object_dictionary = od,
                    sdo = \<lparr>sdo_id = node_id, sdo_object_dictionary = od,
                           sdo_parent = Some self\<rparr>,
                    nmt = \<lparr>nmt_id = node_id, nmt_parent = Some self\<rparr>\<rparr>;
              n1 = register_service n0 SDO_RESPONSE (Sdo_on_response self);
              n2 = register_service n1 HEARTBEAT (Nmt_on_response self)
          in Inr n2)"

text \<open>
  \<^verbatim>\<open>Node.on_message\<close>: the calls it makes, as (callable, identifier, payload), or
  the error it raises.
\<close>

definition on_message :: "'od Node \<Rightarrow> int \<Rightarrow> payload \<Rightarrow> error + (callback \<times> int \<times> payload) list" where
  "on_message self can_id dat =
     (let fn_code = can_id AND 0x780
      in if dict_contains fn_code (service_callbacks self)
         then (case dict_getitem (service_callbacks self) fn_code of
                 Inl e \<Rightarrow> Inl e
               | Inr cb \<Rightarrow> Inr [(cb, can_id, dat)])
         else Inr [])"

subsection \<open>Network\<close>

definition Network_init :: Network where
  "Network_init =
     \<lparr>bus = None, dispatcher = This_network, notifier = None, nodes = [],
      tx_queue = [], net_nmt = \<lparr>nmt_id = 0, nmt_parent = None\<rparr>\<rparr>"

text \<open>
  The first argument of \<^verbatim>\<open>add_node\<close> is an integer or a Node object;
  \<^verbatim>\<open>isinstance(node, int)\<close> tells them apart.
\<close>

datatype node_arg = Address int | Object ref

text \<open>\<^verbatim>\<open>Node(node, object_dictionary)\<close>: a new object at the next free reference.\<close>

definition Node_new :: "('d \<Rightarrow> error + 'od) \<Rightarrow> 'od world \<Rightarrow> int \<Rightarrow> 'd \<Rightarrow> error + ref \<times> 'od world" where
  "Node_new import_any w node_id description =
     (case Node_init import_any (next_ref w) node_id description of
        Inl e \<Rightarrow> Inl e
      | Inr n \<Rightarrow>
          Inr (next_ref w, w\<lparr>heap := (heap w)(next_ref w := n), next_ref := Suc (next_ref w)\<rparr>))"

definition add_node :: "('d \<Rightarrow> error + 'od) \<Rightarrow> 'od world \<Rightarrow> node_arg \<Rightarrow> 'd \<Rightarrow> error + ref \<times> 'od world" where
  "add_node import_any w node description =
     (case (case node of
              Address a \<Rightarrow> Node_new import_any w a description
            | Object r \<Rightarrow> Inr (r, w)) of
        Inl e \<Rightarrow> Inl e
      | Inr (r, w1) \<Rightarrow>
          let w2 = w1\<lparr>heap := (heap w1)(r := (heap w1 r)\<lparr>network := Some This_network\<rparr>)\<rparr>;
              w3 = w2\<lparr>net := (net w2)\<lparr>nodes := dict_set (id' (heap w2 r)) r (nodes (net w2))\<rparr>\<rparr>
          in Inr (r, w3))"

definition send_message :: "'od world \<Rightarrow> int \<Rightarrow> payload \<Rightarrow> 'od world" where
  "send_message w can_id dat =
     w\<lparr>net := (net w)\<lparr>tx_queue := tx_queue (net w) @ [(can_id, dat)]\<rparr>\<rparr>"

text \<open>
  \<^verbatim>\<open>Queue.get(block=True, timeout=timeout)\<close> of the standard library, called from
  the only thread there is: the item taken and the rest of the queue, or the error
  raised; the result \<open>None\<close> says that the call does not return. Without a timeout
  (\<^verbatim>\<open>None\<close>) the call waits for an item for ever; a negative timeout is refused with
  \<^verbatim>\<open>ValueError\<close>, whatever the queue holds; otherwise the wait on an empty queue
  elapses, as nothing arrives, and \<^verbatim>\<open>queue.Empty\<close> is raised.
\<close>

definition Queue_get :: "'a list \<Rightarrow> real option \<Rightarrow> (error + 'a \<times> 'a list) option" where
  "Queue_get q timeout =
     (case timeout of
        None \<Rightarrow> (case q of [] \<Rightarrow> None | x # q' \<Rightarrow> Some (Inr (x, q')))
      | Some t \<Rightarrow>
          if t < 0 then Some (Inl ValueError)
          else (case q of [] \<Rightarrow> Some (Inl Empty) | x # q' \<Rightarrow> Some (Inr (x, q'))))"

text \<open>
  \<^verbatim>\<open>get_message\<close>: only \<^verbatim>\<open>queue.Empty\<close> is caught. The default timeout is 1.
\<close>

definition get_message ::
  "'od world \<Rightarrow> real option \<Rightarrow>
   (error \<times> 'od world + (int option \<times> payload option) \<times> 'od world) option" where
  "get_message w timeout =
     (case Queue_get (tx_queue (net w)) timeout of
        None \<Rightarrow> None
      | Some (Inl e) \<Rightarrow>
          if e = Empty then Some (Inr ((None, None), w)) else Some (Inl (e, w))
      | Some (Inr ((can_id, dat), q)) \<Rightarrow>
          Some (Inr ((Some can_id, Some dat), w\<lparr>net := (net w)\<lparr>tx_queue := q\<rparr>\<rparr>)))"

text \<open>
  \<^verbatim>\<open>node.on_message(can_id, data)\<close> on the Node object at \<open>node\<close>: each call that
  \<^verbatim>\<open>on_message\<close> makes is logged and the callable is run. An exception of the
  callable is not caught.
\<close>

fun run_calls ::
  "'od callbacks \<Rightarrow> ref \<Rightarrow> (callback \<times> int \<times> payload) list \<Rightarrow> 'od world \<Rightarrow>
   error \<times> 'od world + 'od world" where
  "run_calls run node [] w = Inr w"
| "run_calls run node ((cb, can_id, dat) # calls) w =
     (case run cb can_id dat (w\<lparr>invoked := invoked w @ [(node, cb, can_id, dat)]\<rparr>) of
        Inl x \<Rightarrow> Inl x
      | Inr w1 \<Rightarrow> run_calls run node calls w1)"

definition call_on_message ::
  "'od callbacks \<Rightarrow> 'od world \<Rightarrow> ref \<Rightarrow> int \<Rightarrow> payload \<Rightarrow> error \<times> 'od world + 'od world" where
  "call_on_message run w node can_id dat =
     (case on_message (heap w node) can_id dat of
        Inl e \<Rightarrow> Inl (e, w)
      | Inr calls \<Rightarrow> run_calls run node calls w)"

text \<open>
  The broadcast loop \<^verbatim>\<open>for node in self.nodes.values()\<close>, as Python 3 runs it. The
  values are a view of the dictionary as it is at each step, not a copy: the iterator remembers the number
  of entries \<open>used\<close> it found when the loop began, and before each step, the last one
  included, raises \<^verbatim>\<open>RuntimeError\<close> if the dictionary has another size by then;
  otherwise it takes the value at its position in the dictionary as it is now. The
  third argument is the number of values still to come, so the position is
  \<open>used - Suc k\<close>. (Nothing in this module deletes a key; positions are those of the
  association list.)
\<close>

fun for_nodes ::
  "'od callbacks \<Rightarrow> nat \<Rightarrow> nat \<Rightarrow> 'od world \<Rightarrow> int \<Rightarrow> payload \<Rightarrow>
   error \<times> 'od world + 'od world" where
  "for_nodes run used 0 w can_id dat =
     (if length (nodes (net w)) \<noteq> used then Inl (RuntimeError, w) else Inr w)"
| "for_nodes run used (Suc k) w can_id dat =
     (if length (nodes (net w)) \<noteq> used then Inl (RuntimeError, w)
      else (case call_on_message run w (dict_values (nodes (net w)) ! (used - Suc k))
                   can_id dat of
              Inl x \<Rightarrow> Inl x
            | Inr w1 \<Rightarrow> for_nodes run used k w1 can_id dat))"

definition put_message ::
  "'od callbacks \<Rightarrow> 'od world \<Rightarrow> int \<Rightarrow> payload \<Rightarrow> error \<times> 'od world + 'od world" where
  "put_message run w can_id dat =
     (let node_id = can_id AND 0x7F
      in if node_id = 0
         then for_nodes run (length (nodes (net w))) (length (nodes (net w))) w can_id dat
         else if dict_contains node_id (nodes (net w))
         then (case dict_getitem (nodes (net w)) node_id of
                 Inl e \<Rightarrow> Inl (e, w)
               | Inr node \<Rightarrow> call_on_message run w node can_id dat)
         else Inr w)"

text \<open>The mapping view: \<^verbatim>\<open>__getitem__\<close>, \<^verbatim>\<open>__iter__\<close>, \<^verbatim>\<open>__len__\<close>, \<^verbatim>\<open>__contains__\<close>.\<close>

definition getitem :: "Network \<Rightarrow> int \<Rightarrow> error + ref" where
  "getitem self node_id = dict_getitem (nodes self) node_id"

definition iter :: "Network \<Rightarrow> int list" where
  "iter self = dict_keys (nodes self)"


definition contains :: "Network \<Rightarrow> int \<Rightarrow> bool" where
  "contains self node_id = dict_contains node_id (nodes self)"

text \<open>
  \<^verbatim>\<open>can.Message(extended_id, arbitration_id, data)\<close>, the frame constructor of
  the transport library: the error and remote flags are clear, a missing payload is
  the empty one, and a payload of more than 8 bytes is refused with an
  \<^verbatim>\<open>AssertionError\<close>.
\<close>

definition can_Message :: "bool \<Rightarrow> int \<Rightarrow> payload option \<Rightarrow> error + Message" where
  "can_Message extended_id arbitration_id' data' =
     (let d = (case data' of None \<Rightarrow> [] | Some d \<Rightarrow> d)
      in if length d \<le> 8
         then Inr \<lparr>id_type = extended_id, is_error_frame = False, is_remote_frame = False,
                   arbitration_id = arbitration_id', data = d\<rparr>
         else Inl AssertionError)"

text \<open>
  \<^verbatim>\<open>self.bus.send(msg)\<close> inside its \<^verbatim>\<open>try\<close>. \<open>can_error\<close> tells for which frames
  the transport's \<^verbatim>\<open>send\<close> raises \<^verbatim>\<open>can.CanError\<close>, which is caught and logged;
  the frame has been handed to the transport all the same. Without a transport
  (\<^verbatim>\<open>bus\<close> is \<^verbatim>\<open>None\<close>) the attribute access fails, and that is not caught.
\<close>

definition bus_send :: "(Message \<Rightarrow> bool) \<Rightarrow> 'od world \<Rightarrow> Message \<Rightarrow> error + 'od world" where
  "bus_send can_error w msg =
     (case bus (net w) of
        None \<Rightarrow> Inl AttributeError
      | Some b \<Rightarrow>
          let w1 = w\<lparr>net := (net w)\<lparr>bus := Some (b\<lparr>sent := sent b @ [msg]\<rparr>)\<rparr>\<rparr>
          in Inr (if can_error msg then w1\<lparr>logged := logged w1 @ [msg]\<rparr> else w1))"

text \<open>
  \<^verbatim>\<open>_send_to_can\<close>, the body of the transmit thread. The stop event is set by
  another thread: the second argument is the number of times the loop test finds it
  clear. The frame is built outside the \<^verbatim>\<open>try\<close>, so an error of the constructor
  ends the loop, and the thread, before \<^verbatim>\<open>bus.shutdown()\<close>. The result \<open>None\<close>
  says that the loop does not return.
\<close>

fun send_to_can ::
  "(Message \<Rightarrow> bool) \<Rightarrow> nat \<Rightarrow> 'od world \<Rightarrow> (error \<times> 'od world + 'od world) option" where
  "send_to_can can_error 0 w =
     (case bus (net w) of
        None \<Rightarrow> Some (Inl (AttributeError, w))
      | Some b \<Rightarrow> Some (Inr (w\<lparr>net := (net w)\<lparr>bus := Some (b\<lparr>is_shutdown := True\<rparr>)\<rparr>\<rparr>)))"
| "send_to_can can_error (Suc n) w =
     (case get_message w (Some 1) of
        None \<Rightarrow> None
      | Some (Inl x) \<Rightarrow> Some (Inl x)
      | Some (Inr ((None, _), w1)) \<Rightarrow> send_to_can can_error n w1
      | Some (Inr ((Some can_id, dat), w1)) \<Rightarrow>
          (case can_Message False can_id dat of
             Inl e \<Rightarrow> Some (Inl (e, w1))
           | Inr msg \<Rightarrow>
               (case bus_send can_error w1 msg of
                  Inl e \<Rightarrow> Some (Inl (e, w1))
                | Inr w2 \<Rightarrow> send_to_can can_error n w2)))"

subsection \<open>MessageDispatcher\<close>

definition on_message_received ::
  "'od callbacks \<Rightarrow> 'od world \<Rightarrow> Message \<Rightarrow> error \<times> 'od world + 'od world" where
  "on_message_received run w msg =
     (if id_type msg \<or> is_error_frame msg \<or> is_remote_frame msg
      then Inr w
      else put_message run w (arbitration_id msg) (data msg))"

subsection \<open>Well-formed worlds\<close>

text \<open>
  A world with a new Network, before any Node is allocated: no cell of the store holds
  an object yet.
\<close>

definition new_world :: "'od world" where
  "new_world =
     \<lparr>net = Network_init, heap = (\<lambda>_. undefined), next_ref = 0, invoked = [], logged = []\<rparr>"

text \<open>Every Node in the registry is an object that has been allocated.\<close>

definition wf_world :: "'od world \<Rightarrow> bool" where
  "wf_world w = list_all (\<lambda>r. r < next_ref w) (dict_values (nodes (net w)))"

subsection \<open>Specification side and example worlds\<close>

text \<open>
  What a frame is owed at one Node: one call of the callable stored under the frame's
  function code in that Node's Service Table, if there is one, and nothing otherwise.
\<close>

definition matching :: "'od world \<Rightarrow> int \<Rightarrow> payload \<Rightarrow> ref \<Rightarrow> (ref \<times> callback \<times> int \<times> payload) list" where
  "matching w can_id dat node =
     (case map_of (service_callbacks (heap w node)) (can_id AND 0x780) of
        None \<Rightarrow> []
      | Some cb \<Rightarrow> [(node, cb, can_id, dat)])"

text \<open>
  Callables that return and leave alone what routing reads and writes: the registry,
  every Service Table and the log of invocations. They may do anything else, such as
  queueing a frame.
\<close>

definition quiet :: "'od callbacks \<Rightarrow> bool" where
  "quiet run =
     (\<forall>cb can_id dat w. \<exists>w'. run cb can_id dat w = Inr w'
        \<and> nodes (net w') = nodes (net w)
        \<and> (\<forall>r. service_callbacks (heap w' r) = service_callbacks (heap w r))
        \<and> invoked w' = invoked w)"

text \<open>A Network with the Nodes 5 and 6, each built from a bare address.\<close>

definition two_nodes :: "unit world" where
  "two_nodes =
     (case add_node Inr new_world (Address 5) () of
        Inl _ \<Rightarrow> new_world
      | Inr (_, w1) \<Rightarrow>
          (case add_node Inr w1 (Address 6) () of
             Inl _ \<Rightarrow> w1
           | Inr (_, w2) \<Rightarrow> w2))"

text \<open>\<^verbatim>\<open>node.register_service(cob_id, callback)\<close> on the Node object at \<open>node\<close>.\<close>

definition call_register_service :: "'od world \<Rightarrow> ref \<Rightarrow> int \<Rightarrow> callback \<Rightarrow> 'od world" where
  "call_register_service w node cob_id callback =
     w\<lparr>heap := (heap w)(node := register_service (heap w node) cob_id callback)\<rparr>"


text \<open>
  Callables of which one raises, and callables of which one registers a Node at
  address 7 with \<^verbatim>\<open>add_node\<close>; the others return.
\<close>

definition raising :: "callback \<Rightarrow> 'od callbacks" where
  "raising cb0 cb can_id dat w = (if cb = cb0 then Inl (CallbackError, w) else Inr w)"




text \<open>The frame the transmit loop builds for a queued pair: a standard frame.\<close>

definition standard_frame :: "int \<times> payload \<Rightarrow> Message" where
  "standard_frame m =
     \<lparr>id_type = False, is_error_frame = False, is_remote_frame = False,
      arbitration_id = fst m, data = snd m\<rparr>"

text \<open>A connected Network: a transport that has sent nothing, and an empty queue.\<close>

definition connected_world :: "unit world" where
  "connected_world =
     two_nodes\<lparr>net := (net two_nodes)\<lparr>bus := Some \<lparr>sent = [], is_shutdown = False\<rparr>\<rparr>\<rparr>"

section \<open>Identifier decomposition\<close>

lemma and_7ff: "0 \<le> (i::int) \<Longrightarrow> i \<le> 0x7FF \<Longrightarrow> i AND 0x7FF = i"
proof -
  assume h: "0 \<le> i" "i \<le> 0x7FF"
  have "i AND mask 11 = take_bit 11 i" by (simp add: take_bit_eq_mask)
  moreover have "take_bit 11 i = i" using h by (simp add: take_bit_int_eq_self)
  moreover have "(mask 11 :: int) = 0x7FF" by (simp add: mask_eq_exp_minus_1)
  ultimately show ?thesis by simp
qed

lemma and_7f: "0 \<le> (i::int) \<Longrightarrow> i \<le> 0x7F \<Longrightarrow> i AND 0x7F = i"
proof -
  assume h: "0 \<le> i" "i \<le> 0x7F"
  have "i AND mask 7 = take_bit 7 i" by (simp add: take_bit_eq_mask)
  moreover have "take_bit 7 i = i" using h by (simp add: take_bit_int_eq_self)
  moreover have "(mask 7 :: int) = 0x7F" by (simp add: mask_eq_exp_minus_1)
  ultimately show ?thesis by simp
qed

lemma split_id: "((i::int) AND 0x7F) OR (i AND 0x780) = i AND 0x7FF"
proof -
  have "(i AND a) OR (i AND b) = i AND (a OR b)" for a b :: int
    by (rule bit.conj_disj_distrib [symmetric])
  from this [of "0x7F" "0x780"] show ?thesis by simp
qed

lemma split_id_range: "0 \<le> (i::int) \<Longrightarrow> i \<le> 0x7FF \<Longrightarrow> (i AND 0x7F) OR (i AND 0x780) = i"
  by (simp only: split_id and_7ff)

lemma disjoint_masks: "((i::int) AND 0x7F) AND (j AND 0x780) = 0"
proof -
  have "(i AND a) AND (j AND b) = (i AND j) AND (a AND b)" for a b :: int
    by (simp add: ac_simps)
  from this [of "0x7F" "0x780"] show ?thesis by simp
qed

lemma or_low: 
  assumes "0 \<le> (a::int)" "a \<le> 0x7F" "f AND 0x780 = f" 
  shows "(a OR f) AND 0x7F = a"
proof -
  have "(a OR f) AND 0x7F = (a AND 0x7F) OR (f AND 0x7F)"
    by (rule bit.conj_disj_distrib2)
  moreover have "f AND 0x7F = (f AND 0x780) AND 0x7F" using assms by simp
  moreover have "(f AND b) AND c = f AND (b AND c)" for b c :: int by (simp add: ac_simps)
  from this [of "0x780" "0x7F"] have "(f AND 0x780) AND 0x7F = 0" by simp
  ultimately show ?thesis using and_7f [OF assms(1,2)] by simp
qed

lemma or_high: 
  assumes "0 \<le> (a::int)" "a \<le> 0x7F" "f AND 0x780 = f" 
  shows "(a OR f) AND 0x780 = f"
proof -
  have "(a OR f) AND 0x780 = (a AND 0x780) OR (f AND 0x780)"
    by (rule bit.conj_disj_distrib2)
  moreover have "a AND 0x780 = (a AND 0x7F) AND 0x780" using and_7f [OF assms(1,2)] by simp
  moreover have "(a AND b) AND c = a AND (b AND c)" for b c :: int by (simp add: ac_simps)
  from this [of "0x7F" "0x780"] have "(a AND 0x7F) AND 0x780 = 0" by simp
  ultimately show ?thesis using assms(3) by simp
qed

lemma or_range:
  assumes "0 \<le> (a::int)" "a \<le> 0x7F" "f AND 0x780 = f" 
  shows "0 \<le> (a OR f) \<and> (a OR f) \<le> 0x7FF"
proof -
  have f: "0 \<le> f" "f \<le> 0x780"
  proof -
    have "0 \<le> f AND 0x780" by simp
    then show "0 \<le> f" using assms(3) by simp
    have "f AND 0x780 \<le> 0x780" by (rule AND_upper2) simp
    then show "f \<le> 0x780" using assms(3) by simp
  qed
  have "a OR f < 2 ^ 11" using assms(1,2) f by (intro OR_upper) simp_all
  then show ?thesis using assms(1) f(1) by simp
qed


section \<open>Routing\<close>

lemma dict_getitem_contains:
  "dict_contains k d \<Longrightarrow> \<exists>v. dict_getitem d k = Inr v \<and> map_of d k = Some v"
  by (auto simp: dict_contains_def dict_getitem_def)

lemma on_message_eq:
  "on_message n can_id dat =
     Inr (case map_of (service_callbacks n) (can_id AND 0x780) of
            None \<Rightarrow> [] | Some cb \<Rightarrow> [(cb, can_id, dat)])"
  by (simp add: on_message_def Let_def dict_contains_def dict_getitem_def split: option.splits)

lemma call_on_message_eq:
  "call_on_message run w node can_id dat =
     (case map_of (service_callbacks (heap w node)) (can_id AND 0x780) of
        None \<Rightarrow> Inr w
      | Some cb \<Rightarrow> run cb can_id dat (w\<lparr>invoked := invoked w @ [(node, cb, can_id, dat)]\<rparr>))"
  by (simp add: call_on_message_def on_message_eq split: option.splits sum.splits)

lemma put_message_unicast_eq:
  assumes "can_id AND 0x7F \<noteq> 0"
  shows "put_message run w can_id dat =
     (case map_of (nodes (net w)) (can_id AND 0x7F) of
        None \<Rightarrow> Inr w
      | Some node \<Rightarrow> call_on_message run w node can_id dat)"
  using assms
  by (simp add: put_message_def Let_def dict_contains_def dict_getitem_def split: option.splits)

lemma matching_invoked [simp]:
  "matching (w\<lparr>invoked := x\<rparr>) can_id dat = matching w can_id dat"
  by (simp add: matching_def fun_eq_iff)

lemma call_on_message_returning:
  "call_on_message returning w node can_id dat =
     Inr (w\<lparr>invoked := invoked w @ matching w can_id dat node\<rparr>)"
  by (simp add: call_on_message_eq returning_def matching_def split: option.splits)

lemma for_nodes_returning:
  "length (nodes (net w)) = used \<Longrightarrow> k \<le> used \<Longrightarrow>
   for_nodes returning used k w can_id dat =
     Inr (w\<lparr>invoked := invoked w @
           concat (map (matching w can_id dat) (drop (used - k) (dict_values (nodes (net w)))))\<rparr>)"
proof (induction k arbitrary: w)
  case 0
  then show ?case by (simp add: dict_values_def)
next
  case (Suc k)
  let ?i = "used - Suc k"
  let ?vs = "dict_values (nodes (net w))"
  let ?w1 = "w\<lparr>invoked := invoked w @ matching w can_id dat (?vs ! ?i)\<rparr>"
  have i: "?i < length ?vs" and k: "used - k = Suc ?i"
    using Suc.prems by (simp_all add: dict_values_def)
  have d: "drop ?i ?vs = ?vs ! ?i # drop (used - k) ?vs"
    using i k by (simp add: Cons_nth_drop_Suc)
  have "for_nodes returning used (Suc k) w can_id dat = for_nodes returning used k ?w1 can_id dat"
    using Suc.prems by (simp add: call_on_message_returning)
  also have "\<dots> = Inr (?w1\<lparr>invoked := invoked ?w1 @
           concat (map (matching ?w1 can_id dat) (drop (used - k) (dict_values (nodes (net ?w1)))))\<rparr>)"
    using Suc.prems by (intro Suc.IH) simp_all
  finally show ?case
    by (simp add: d)
qed

lemma put_message_eq:
  "put_message returning w can_id dat =
     Inr (w\<lparr>invoked := invoked w @
           (if can_id AND 0x7F = 0
            then concat (map (matching w can_id dat) (dict_values (nodes (net w))))
            else case map_of (nodes (net w)) (can_id AND 0x7F) of
                   None \<Rightarrow> []
                 | Some node \<Rightarrow> matching w can_id dat node)\<rparr>)"
proof (cases "can_id AND 0x7F = 0")
  case True
  then show ?thesis
    by (simp add: put_message_def for_nodes_returning)
next
  case False
  then show ?thesis
    by (simp add: put_message_unicast_eq call_on_message_returning split: option.splits)
qed


lemma two_nodes_net: "nodes (net two_nodes) = [(5, 0), (6, 1)]"
  by (simp add: two_nodes_def add_node_def Node_new_def Node_init_def new_world_def
      Network_init_def register_service_def Let_def)

lemma two_nodes_heap0: "service_callbacks (heap two_nodes 0) = [(0x580, Sdo_on_response 0), (0x700, Nmt_on_response 0)]"
  by (simp add: two_nodes_def add_node_def Node_new_def Node_init_def new_world_def
      Network_init_def register_service_def Let_def SDO_RESPONSE_def HEARTBEAT_def)

lemma two_nodes_heap1: "service_callbacks (heap two_nodes (Suc 0)) = [(0x580, Sdo_on_response (Suc 0)), (0x700, Nmt_on_response (Suc 0))]"
  by (simp add: two_nodes_def add_node_def Node_new_def Node_init_def new_world_def
      Network_init_def register_service_def Let_def SDO_RESPONSE_def HEARTBEAT_def)


text \<open>
  C1: routing splits the identifier into the node address \<open>id AND 0x7F\<close> and the
  function code \<open>id AND 0x780\<close>. When the node address is not 0 and is a key of the
  registry, the only call routing makes is the one of the callable stored under the
  function code in the Service Table of the Node registered there (none if there is no
  such entry): the call is logged and the result of routing is whatever that callable
  does; with callables that just return, the world is the old one with that one log
  entry. No other Node is involved. For an 11-bit identifier the two fields give the
  identifier back, two 11-bit identifiers with the same fields are equal, and every node
  address in 0..0x7F occurs together with every function code.
\<close>

theorem put_message_unicast:
  fixes w :: "'od world"
  shows "(can_id AND 0x7F \<noteq> 0 \<longrightarrow>
            (\<forall>node. dict_getitem (nodes (net w)) (can_id AND 0x7F) = Inr node \<longrightarrow>
               put_message run w can_id dat =
                 (case map_of (service_callbacks (heap w node)) (can_id AND 0x780) of
                    None \<Rightarrow> Inr w
                  | Some cb \<Rightarrow>
                      run cb can_id dat (w\<lparr>invoked := invoked w @ [(node, cb, can_id, dat)]\<rparr>))
             \<and> put_message returning w can_id dat =
                 Inr (w\<lparr>invoked := invoked w @
                       (case map_of (service_callbacks (heap w node)) (can_id AND 0x780) of
                          None \<Rightarrow> []
                        | Some cb \<Rightarrow> [(node, cb, can_id, dat)])\<rparr>)))
       \<and> (0 \<le> can_id \<and> can_id \<le> 0x7FF \<longrightarrow>
            (can_id AND 0x7F) OR (can_id AND 0x780) = can_id
          \<and> (\<forall>i. 0 \<le> i \<and> i \<le> 0x7FF \<and> i AND 0x7F = can_id AND 0x7F
                  \<and> i AND 0x780 = can_id AND 0x780 \<longrightarrow> i = can_id))
       \<and> (\<forall>a f :: int. 0 \<le> a \<and> a \<le> 0x7F \<and> f AND 0x780 = f \<longrightarrow>
            (\<exists>i :: int. 0 \<le> i \<and> i \<le> 0x7FF \<and> i AND 0x7F = a \<and> i AND 0x780 = f))"
proof (intro conjI impI allI)
  fix node
  assume h: "can_id AND 0x7F \<noteq> 0"
    "dict_getitem (nodes (net w)) (can_id AND 0x7F) = Inr node"
  then have n: "map_of (nodes (net w)) (can_id AND 0x7F) = Some node"
    by (simp add: dict_getitem_def split: option.splits)
  show "put_message run w can_id dat =
      (case map_of (service_callbacks (heap w node)) (can_id AND 0x780) of
         None \<Rightarrow> Inr w
       | Some cb \<Rightarrow>
           run cb can_id dat (w\<lparr>invoked := invoked w @ [(node, cb, can_id, dat)]\<rparr>))"
    using h(1) n by (simp add: put_message_unicast_eq call_on_message_eq)
  show "put_message returning w can_id dat =
      Inr (w\<lparr>invoked := invoked w @
            (case map_of (service_callbacks (heap w node)) (can_id AND 0x780) of
               None \<Rightarrow> []
             | Some cb \<Rightarrow> [(node, cb, can_id, dat)])\<rparr>)"
    using h(1) n by (simp add: put_message_eq matching_def)
next
  assume "0 \<le> can_id \<and> can_id \<le> 0x7FF"
  then show "(can_id AND 0x7F) OR (can_id AND 0x780) = can_id"
    by (simp only: split_id_range)
next
  fix i
  assume c: "0 \<le> can_id \<and> can_id \<le> 0x7FF"
    and i: "0 \<le> i \<and> i \<le> 0x7FF \<and> i AND 0x7F = can_id AND 0x7F
            \<and> i AND 0x780 = can_id AND 0x780"
  have "i = (i AND 0x7F) OR (i AND 0x780)"
    using i split_id_range [of i] by simp
  also have "\<dots> = (can_id AND 0x7F) OR (can_id AND 0x780)"
    using i by simp
  also have "\<dots> = can_id"
    using c split_id_range [of can_id] by simp
  finally show "i = can_id" .
next
  fix a f :: int
  assume "0 \<le> a \<and> a \<le> 0x7F \<and> f AND 0x780 = f"
  then have "0 \<le> (a OR f) \<and> (a OR f) \<le> 0x7FF \<and> (a OR f) AND 0x7F = a \<and> (a OR f) AND 0x780 = f"
    using or_range [of a f] or_low [of a f] or_high [of a f] by simp
  then show "\<exists>i. 0 \<le> i \<and> i \<le> 0x7FF \<and> i AND 0x7F = a \<and> i AND 0x780 = f"
    by (rule exI)
qed

theorem put_message_unicast_witness:
  "put_message returning two_nodes 0x705 [5] =
     Inr (two_nodes\<lparr>invoked := invoked two_nodes @ [(0, Nmt_on_response 0, 0x705, [5])]\<rparr>)
   \<and> put_message (raising (Nmt_on_response 0)) two_nodes 0x705 [5] =
     Inl (CallbackError,
          two_nodes\<lparr>invoked := invoked two_nodes @ [(0, Nmt_on_response 0, 0x705, [5])]\<rparr>)
   \<and> ((0x705::int) AND 0x7F) OR (0x705 AND 0x780) = 0x705"
  using put_message_unicast [of "0x705" two_nodes "raising (Nmt_on_response 0)" "[5]"]
  by (simp add: dict_getitem_def two_nodes_net two_nodes_heap0 raising_def)





lemma quiet_returning: "quiet returning"
  by (simp add: quiet_def returning_def)





text \<open>
  C3: a frame for a nonzero node address that is not a key of the registry, a frame for
  a registered Node whose Service Table has no entry for \<open>id AND 0x780\<close>, and a
  broadcast that no registered Node has an entry for, leave the world as it was,
  whatever the callables would do: no call is made or logged, the Network and every
  Node are unchanged, and the result is not an error. Routing itself never raises: the
  two subscripts are guarded by the membership tests, so with callables that return
  the result is never an error.
\<close>

theorem put_message_drop:
  fixes w :: "'od world"
  shows "(can_id AND 0x7F \<noteq> 0 \<and> \<not> dict_contains (can_id AND 0x7F) (nodes (net w)) \<longrightarrow>
            put_message run w can_id dat = Inr w)
       \<and> (can_id AND 0x7F \<noteq> 0
            \<and> dict_getitem (nodes (net w)) (can_id AND 0x7F) = Inr node
            \<and> \<not> dict_contains (can_id AND 0x780) (service_callbacks (heap w node)) \<longrightarrow>
            put_message run w can_id dat = Inr w)
       \<and> (can_id AND 0x7F = 0
            \<and> (\<forall>r \<in> set (dict_values (nodes (net w))).
                  \<not> dict_contains (can_id AND 0x780) (service_callbacks (heap w r))) \<longrightarrow>
            put_message run w can_id dat = Inr w)
       \<and> (\<not> dict_contains (can_id AND 0x780) (service_callbacks (heap w node)) \<longrightarrow>
            on_message (heap w node) can_id dat = Inr []
          \<and> call_on_message run w node can_id dat = Inr w)
       \<and> (\<exists>w'. put_message returning w can_id dat = Inr w')"
proof (intro conjI impI)
  assume "can_id AND 0x7F \<noteq> 0 \<and> \<not> dict_contains (can_id AND 0x7F) (nodes (net w))"
  then show "put_message run w can_id dat = Inr w"
    by (simp add: put_message_def)
next
  assume "can_id AND 0x7F \<noteq> 0
            \<and> dict_getitem (nodes (net w)) (can_id AND 0x7F) = Inr node
            \<and> \<not> dict_contains (can_id AND 0x780) (service_callbacks (heap w node))"
  then show "put_message run w can_id dat = Inr w"
    by (simp add: put_message_unicast_eq call_on_message_eq dict_contains_def dict_getitem_def
        split: option.splits)
next
  assume h: "can_id AND 0x7F = 0
            \<and> (\<forall>r \<in> set (dict_values (nodes (net w))).
                  \<not> dict_contains (can_id AND 0x780) (service_callbacks (heap w r)))"
  have "length (nodes (net w)) = used \<Longrightarrow> k \<le> used \<Longrightarrow>
      for_nodes run used k w can_id dat = Inr w" for used k
  proof (induction k)
    case 0
    then show ?case by simp
  next
    case (Suc k)
    then have "dict_values (nodes (net w)) ! (used - Suc k) \<in> set (dict_values (nodes (net w)))"
      by (simp add: dict_values_def)
    with h have "call_on_message run w (dict_values (nodes (net w)) ! (used - Suc k)) can_id dat
        = Inr w"
      by (simp add: call_on_message_eq dict_contains_def)
    then show ?case
      using Suc by simp
  qed
  then show "put_message run w can_id dat = Inr w"
    using h by (simp add: put_message_def)
next
  assume h: "\<not> dict_contains (can_id AND 0x780) (service_callbacks (heap w node))"
  then show "on_message (heap w node) can_id dat = Inr []"
    by (simp add: on_message_def)
  from h show "call_on_message run w node can_id dat = Inr w"
    by (simp add: call_on_message_def on_message_def)
next
  show "\<exists>w'. put_message returning w can_id dat = Inr w'"
    by (simp add: put_message_eq)
qed

theorem put_message_drop_witness:
  "put_message (raising (Nmt_on_response 0)) two_nodes 0x707 [7] = Inr two_nodes
   \<and> put_message (raising (Nmt_on_response 0)) two_nodes 0x605 [0x40] = Inr two_nodes
   \<and> put_message (raising (Nmt_on_response 0)) two_nodes 0x600 [] = Inr two_nodes"
  using put_message_drop [where can_id = "0x707" and w = two_nodes and dat = "[7]" and node = 0
      and run = "raising (Nmt_on_response 0)"]
    put_message_drop [where can_id = "0x605" and w = two_nodes and dat = "[0x40]" and node = 0
      and run = "raising (Nmt_on_response 0)"]
    put_message_drop [where can_id = "0x600" and w = two_nodes and dat = "[]" and node = 0
      and run = "raising (Nmt_on_response 0)"]
  by (simp add: dict_contains_def dict_getitem_def dict_values_def two_nodes_net
      two_nodes_heap0 two_nodes_heap1)

section \<open>The outbound channel\<close>

text \<open>
  C9: \<^verbatim>\<open>send_message\<close> puts the pair at the tail of the queue, which grows by one,
  and nothing else changes: the registry, the other fields of the Network, the store of
  Nodes (so every Service Table), the allocation counter and the two logs. The queue is
  unbounded, so \<^verbatim>\<open>put\<close> neither blocks nor raises: the model is a total function
  with no error result.
\<close>

theorem send_message_frame:
  "tx_queue (net (send_message w can_id dat)) = tx_queue (net w) @ [(can_id, dat)]
   \<and> length (tx_queue (net (send_message w can_id dat))) = Suc (length (tx_queue (net w)))
   \<and> nodes (net (send_message w can_id dat)) = nodes (net w)
   \<and> bus (net (send_message w can_id dat)) = bus (net w)
   \<and> dispatcher (net (send_message w can_id dat)) = dispatcher (net w)
   \<and> notifier (net (send_message w can_id dat)) = notifier (net w)
   \<and> net_nmt (net (send_message w can_id dat)) = net_nmt (net w)
   \<and> heap (send_message w can_id dat) = heap w
   \<and> next_ref (send_message w can_id dat) = next_ref w
   \<and> invoked (send_message w can_id dat) = invoked w
   \<and> logged (send_message w can_id dat) = logged w
   \<and> send_message w can_id dat =
       w\<lparr>net := (net w)\<lparr>tx_queue := tx_queue (net w) @ [(can_id, dat)]\<rparr>\<rparr>"
  by (simp add: send_message_def)

lemma connected_world_queue:
  "tx_queue (net connected_world) = []"
  "bus (net connected_world) = Some \<lparr>sent = [], is_shutdown = False\<rparr>"
  by (simp_all add: connected_world_def two_nodes_def add_node_def Node_new_def
      Node_init_def new_world_def Network_init_def Let_def)




section \<open>The inbound dispatcher\<close>

text \<open>
  C8: the dispatcher hands \<open>(arbitration_id, data)\<close> of a frame to routing exactly
  when none of the three flags (extended addressing, error frame, remote request) is
  set: then its effect is the one of \<^verbatim>\<open>put_message\<close> on that pair. A frame with a
  flag set is filtered: nothing is routed and the world is as it was.
\<close>

theorem on_message_received_filter:
  "(\<not> id_type msg \<and> \<not> is_error_frame msg \<and> \<not> is_remote_frame msg \<longrightarrow>
      on_message_received run w msg = put_message run w (arbitration_id msg) (data msg))
   \<and> (id_type msg \<or> is_error_frame msg \<or> is_remote_frame msg \<longrightarrow>
      on_message_received run w msg = Inr w)"
  by (simp add: on_message_received_def)

theorem on_message_received_filter_witness:
  "on_message_received returning two_nodes (standard_frame (0x705, [5])) =
     Inr (two_nodes\<lparr>invoked := invoked two_nodes @ [(0, Nmt_on_response 0, 0x705, [5])]\<rparr>)
   \<and> on_message_received returning two_nodes
        ((standard_frame (0x705, [5]))\<lparr>id_type := True\<rparr>) = Inr two_nodes
   \<and> on_message_received returning two_nodes
        ((standard_frame (0x705, [5]))\<lparr>is_error_frame := True\<rparr>) = Inr two_nodes
   \<and> on_message_received returning two_nodes
        ((standard_frame (0x705, [5]))\<lparr>is_remote_frame := True\<rparr>) = Inr two_nodes"
  using on_message_received_filter [of "standard_frame (0x705, [5])" returning two_nodes]
    on_message_received_filter
      [of "(standard_frame (0x705, [5]))\<lparr>id_type := True\<rparr>" returning two_nodes]
    on_message_received_filter
      [of "(standard_frame (0x705, [5]))\<lparr>is_error_frame := True\<rparr>" returning two_nodes]
    on_message_received_filter
      [of "(standard_frame (0x705, [5]))\<lparr>is_remote_frame := True\<rparr>" returning two_nodes]
  by (simp add: standard_frame_def put_message_eq matching_def two_nodes_net two_nodes_heap0)

section \<open>The transmit loop\<close>


lemma get_message_default:
  "get_message w (Some 1) =
     Some (Inr (case tx_queue (net w) of
                  [] \<Rightarrow> ((None, None), w)
                | (can_id, dat) # q \<Rightarrow>
                    ((Some can_id, Some dat), w\<lparr>net := (net w)\<lparr>tx_queue := q\<rparr>\<rparr>)))"
  by (simp add: get_message_def Queue_get_def split: list.splits)

lemma can_Message_standard:
  "can_Message False can_id (Some dat) =
     (if length dat \<le> 8 then Inr (standard_frame (can_id, dat)) else Inl AssertionError)"
  by (simp add: can_Message_def standard_frame_def)


lemma send_to_can_long:
  assumes "tx_queue (net w) = (can_id, dat) # q" and "8 < length dat"
  shows "send_to_can can_error (Suc n) w =
     Some (Inl (AssertionError, w\<lparr>net := (net w)\<lparr>tx_queue := q\<rparr>\<rparr>))"
  using assms by (simp add: get_message_default can_Message_standard)






text \<open>
  A payload of 9 bytes at the head of the queue: the loop ends in its first round, with
  nothing handed to the transport and the transport not shut down; the pair behind it
  stays queued.
\<close>

lemma send_to_can_long_payload:
  "send_to_can (\<lambda>msg. False) (Suc 4)
     (send_message (send_message connected_world 0x185 [1, 2, 3, 4, 5, 6, 7, 8, 9]) 0x186 [1]) =
   Some (Inl (AssertionError, send_message connected_world 0x186 [1]))
   \<and> bus (net (send_message connected_world 0x186 [1])) =
       Some \<lparr>sent = [], is_shutdown = False\<rparr>"
proof -
  let ?w = "send_message (send_message connected_world 0x185 [1, 2, 3, 4, 5, 6, 7, 8, 9])
      0x186 [1]"
  have q: "tx_queue (net ?w) = (0x185, [1, 2, 3, 4, 5, 6, 7, 8, 9]) # [(0x186, [1])]"
    by (simp add: send_message_def connected_world_queue)
  have "send_to_can (\<lambda>msg. False) (Suc 4) ?w =
      Some (Inl (AssertionError, ?w\<lparr>net := (net ?w)\<lparr>tx_queue := [(0x186, [1])]\<rparr>\<rparr>))"
    using q by (rule send_to_can_long) simp
  moreover have "?w\<lparr>net := (net ?w)\<lparr>tx_queue := [(0x186, [1])]\<rparr>\<rparr> =
      send_message connected_world 0x186 [1]"
    by (simp add: send_message_def connected_world_queue)
  moreover have "bus (net (send_message connected_world 0x186 [1])) =
      Some \<lparr>sent = [], is_shutdown = False\<rparr>"
    by (simp add: send_message_def connected_world_queue)
  ultimately show ?thesis
    by simp
qed

section \<open>The Service Table\<close>

lemma map_of_dict_set: "map_of (dict_set k v d) = (map_of d)(k \<mapsto> v)"
  by (induction d) (auto simp: fun_eq_iff)

lemma keys_dict_set:
  "map fst (dict_set k v d) = (if k \<in> set (map fst d) then map fst d else map fst d @ [k])"
  by (induction d) force+

lemma distinct_dict_set:
  "distinct (map fst d) \<Longrightarrow> distinct (map fst (dict_set k v d))"
  by (simp add: keys_dict_set)

lemma set_keys_dict_set: "fst ` set (dict_set k v d) = insert k (fst ` set d)"
proof -
  have "set (map fst (dict_set k v d)) = insert k (set (map fst d))"
    unfolding keys_dict_set by (cases "k \<in> set (map fst d)") (simp_all add: insert_absorb)
  then show ?thesis by simp
qed

lemma Node_init_Inr:
  "import_any description = Inr od \<Longrightarrow>
   Node_init import_any self node_id description =
     Inr \<lparr>id' = node_id, network = None,
          service_callbacks = [(0x580, Sdo_on_response self), (0x700, Nmt_on_response self)],
          object_dictionary = od,
          sdo = \<lparr>sdo_id = node_id, sdo_object_dictionary = od, sdo_parent = Some self\<rparr>,
          nmt = \<lparr>nmt_id = node_id, nmt_parent = Some self\<rparr>\<rparr>"
  by (simp add: Node_init_def register_service_def SDO_RESPONSE_def HEARTBEAT_def)

lemma Node_init_Inl:
  "import_any description = Inl e \<Longrightarrow> Node_init import_any self node_id description = Inl e"
  by (simp add: Node_init_def)

lemma Node_init_table:
  "Node_init import_any self node_id description = Inr n \<Longrightarrow>
   service_callbacks n = [(0x580, Sdo_on_response self), (0x700, Nmt_on_response self)]"
  by (cases "import_any description") (auto simp: Node_init_Inl Node_init_Inr)

text \<open>
  C6: a Node that has just been constructed has a Service Table of exactly two entries:
  \<open>0x580\<close> (\<^verbatim>\<open>SDO_RESPONSE\<close>) with the \<^verbatim>\<open>on_response\<close> method of its own
  state-transfer engine, and \<open>0x700\<close> (\<^verbatim>\<open>HEARTBEAT\<close>) with the \<^verbatim>\<open>on_response\<close>
  method of its own heartbeat engine. Construction yields a Node whenever the
  description resolves.
\<close>

theorem Node_init_two_services:
  assumes "import_any description = Inr od"
  shows "\<exists>n. Node_init import_any self node_id description = Inr n
           \<and> service_callbacks n =
               [(0x580, Sdo_on_response self), (0x700, Nmt_on_response self)]
           \<and> dict_keys (service_callbacks n) = [SDO_RESPONSE, HEARTBEAT]
           \<and> length (service_callbacks n) = 2
           \<and> sdo_parent (sdo n) = Some self \<and> nmt_parent (nmt n) = Some self
           \<and> (\<forall>k. dict_contains k (service_callbacks n) \<longleftrightarrow> k = 0x580 \<or> k = 0x700)"
  using assms
  by (simp add: Node_init_Inr dict_keys_def dict_contains_def SDO_RESPONSE_def HEARTBEAT_def)

theorem Node_init_two_services_witness:
  "\<exists>n. Node_init (Inr :: unit \<Rightarrow> error + unit) 0 5 () = Inr n
      \<and> service_callbacks n = [(0x580, Sdo_on_response 0), (0x700, Nmt_on_response 0)]
      \<and> length (service_callbacks n) = 2"
proof -
  have "(Inr :: unit \<Rightarrow> error + unit) () = Inr ()"
    by simp
  from Node_init_two_services
    [where import_any = "Inr :: unit \<Rightarrow> error + unit" and description = "()" and od = "()"
       and self = 0 and node_id = 5, OF this]
  show ?thesis
    by auto
qed

lemma register_all:
  "distinct (dict_keys (service_callbacks n)) \<Longrightarrow>
   distinct (dict_keys (service_callbacks
      (fold (\<lambda>(cob_id, cb) n'. register_service n' cob_id cb) regs n)))
   \<and> set (dict_keys (service_callbacks
      (fold (\<lambda>(cob_id, cb) n'. register_service n' cob_id cb) regs n))) =
       set (dict_keys (service_callbacks n)) \<union> fst ` set regs
   \<and> map_of (service_callbacks
      (fold (\<lambda>(cob_id, cb) n'. register_service n' cob_id cb) regs n)) =
       map_of (service_callbacks n) ++ map_of (rev regs)"
proof (induction regs arbitrary: n)
  case Nil
  then show ?case by simp
next
  case (Cons r regs)
  obtain k cb where r: "r = (k, cb)"
    by (cases r)
  let ?n1 = "register_service n k cb"
  have d: "distinct (dict_keys (service_callbacks ?n1))"
    using Cons.prems by (simp add: register_service_def dict_keys_def distinct_dict_set)
  have s: "set (dict_keys (service_callbacks ?n1)) = insert k (set (dict_keys (service_callbacks n)))"
    by (simp add: register_service_def dict_keys_def set_keys_dict_set)
  have m: "map_of (service_callbacks ?n1) = (map_of (service_callbacks n))(k \<mapsto> cb)"
    by (simp add: register_service_def map_of_dict_set)
  have f: "fold (\<lambda>(cob_id, cb) n'. register_service n' cob_id cb) (r # regs) n =
      fold (\<lambda>(cob_id, cb) n'. register_service n' cob_id cb) regs ?n1"
    by (simp add: r)
  have "map_of (service_callbacks ?n1) ++ map_of (rev regs) =
      map_of (service_callbacks n) ++ map_of (rev (r # regs))"
    by (simp add: m r map_add_def fun_eq_iff split: option.splits)
  then show ?case
    using Cons.IH [OF d] s by (simp only: f) (auto simp: r)
qed

text \<open>
  C7 (as amended): \<^verbatim>\<open>register_service\<close> stores the callable under the key it is
  given, as it is, without masking. For a Node that has been constructed and has then
  taken any sequence of registrations: the keys of its Service Table are pairwise
  different (one callable per key), they are \<open>0x580\<close>, \<open>0x700\<close> and the keys that
  were registered, and they are all masked function codes provided every registered
  key is one. A registration replaces the callable of its key and touches no other
  key, so for each key the last registration wins.
\<close>

theorem register_service_last_wins:
  assumes "Node_init import_any self node_id description = Inr n0"
    and "n = fold (\<lambda>(cob_id, cb) n'. register_service n' cob_id cb) regs n0"
  shows "distinct (dict_keys (service_callbacks n))
       \<and> set (dict_keys (service_callbacks n)) = {0x580, 0x700} \<union> fst ` set regs
       \<and> ((\<forall>k \<in> fst ` set regs. k AND 0x780 = k) \<longrightarrow>
            (\<forall>k \<in> set (dict_keys (service_callbacks n)). k AND 0x780 = k))
       \<and> map_of (service_callbacks n) = map_of (service_callbacks n0) ++ map_of (rev regs)
       \<and> (\<forall>k cb. map_of (service_callbacks (register_service n k cb)) k = Some cb
            \<and> (\<forall>k'. k' \<noteq> k \<longrightarrow>
                 map_of (service_callbacks (register_service n k cb)) k' =
                 map_of (service_callbacks n) k'))"
proof -
  have t: "service_callbacks n0 = [(0x580, Sdo_on_response self), (0x700, Nmt_on_response self)]"
    using assms(1) by (rule Node_init_table)
  then have "distinct (dict_keys (service_callbacks n0))"
    by (simp add: dict_keys_def)
  from register_all [OF this, of regs] have
    d: "distinct (dict_keys (service_callbacks n))" and
    s: "set (dict_keys (service_callbacks n)) = set (dict_keys (service_callbacks n0)) \<union> fst ` set regs" and
    m: "map_of (service_callbacks n) = map_of (service_callbacks n0) ++ map_of (rev regs)"
    unfolding assms(2) by blast+
  have s': "set (dict_keys (service_callbacks n)) = {0x580, 0x700} \<union> fst ` set regs"
    using s t by (simp add: dict_keys_def)
  have masked: "(\<forall>k \<in> fst ` set regs. k AND 0x780 = k) \<longrightarrow>
            (\<forall>k \<in> set (dict_keys (service_callbacks n)). k AND 0x780 = k)"
    unfolding s' by auto
  have upd: "\<forall>k cb. map_of (service_callbacks (register_service n k cb)) k = Some cb
            \<and> (\<forall>k'. k' \<noteq> k \<longrightarrow>
                 map_of (service_callbacks (register_service n k cb)) k' =
                 map_of (service_callbacks n) k')"
    by (simp add: register_service_def map_of_dict_set)
  from d s' masked m upd show ?thesis
    by blast
qed

theorem register_service_last_wins_witness:
  "\<exists>n0 n. Node_init (Inr :: unit \<Rightarrow> error + unit) 0 5 () = Inr n0
     \<and> n = fold (\<lambda>(cob_id, cb) n'. register_service n' cob_id cb)
             [(0x180, Handler 0), (0x280, Handler 1), (0x180, Handler 2)] n0
     \<and> distinct (dict_keys (service_callbacks n))
     \<and> set (dict_keys (service_callbacks n)) = {0x580, 0x700, 0x180, 0x280}
     \<and> (\<forall>k \<in> set (dict_keys (service_callbacks n)). k AND 0x780 = k)
     \<and> map_of (service_callbacks n) 0x180 = Some (Handler 2)"
proof -
  obtain n0 where n0: "Node_init (Inr :: unit \<Rightarrow> error + unit) 0 5 () = Inr n0"
    by (simp add: Node_init_def)
  define n where "n = fold (\<lambda>(cob_id, cb) n'. register_service n' cob_id cb)
             [(0x180, Handler 0), (0x280, Handler 1), (0x180, Handler 2)] n0"
  have t: "service_callbacks n0 = [(0x580, Sdo_on_response 0), (0x700, Nmt_on_response 0)]"
    using n0 by (rule Node_init_table)
  from register_service_last_wins [OF n0 n_def] have
    "distinct (dict_keys (service_callbacks n))"
    "set (dict_keys (service_callbacks n)) = {0x580, 0x700, 0x180, 0x280}"
    "\<forall>k \<in> set (dict_keys (service_callbacks n)). k AND 0x780 = k"
    "map_of (service_callbacks n) 0x180 = Some (Handler 2)"
    by (auto simp: t)
  with n0 n_def show ?thesis
    by blast
qed

text \<open>
  C7 as stated fails: Node 5 of the example Network registers a handler under
  the full identifier \<open>0x581\<close>. The key is stored as given and is not a masked
  function code; a frame with that identifier still reaches the default entry
  \<open>0x580\<close>.
\<close>

theorem register_service_unmasked_key:
  "dict_keys (service_callbacks (heap (call_register_service two_nodes 0 0x581 (Handler 0)) 0)) =
     [0x580, 0x700, 0x581]
   \<and> (0x581 :: int) AND 0x780 \<noteq> 0x581
   \<and> on_message (heap (call_register_service two_nodes 0 0x581 (Handler 0)) 0) 0x581 [] =
       Inr [(Sdo_on_response 0, 0x581, [])]"
  by (simp add: call_register_service_def register_service_def two_nodes_heap0 dict_keys_def
      on_message_eq)

section \<open>The Node registry\<close>

lemma dict_set_twice: "dict_set k v (dict_set k v' d) = dict_set k v d"
  by (induction d) auto

lemma dict_set_entry: "x \<in> set (dict_set k v d) \<Longrightarrow> snd x = v \<or> x \<in> set d"
  by (induction d) (auto split: if_splits)

lemma values_dict_set:
  "set (dict_values (dict_set k v d)) \<subseteq> insert v (set (dict_values d))"
  using dict_set_entry [of _ k v d] by (fastforce simp: dict_values_def)

lemma wf_world_dict_set:
  assumes "wf_world w" and "nodes (net w') = dict_set k r (nodes (net w))"
    and "r < next_ref w'" and "next_ref w \<le> next_ref w'"
  shows "wf_world w'"
proof -
  have "snd x < next_ref w'" if "x \<in> set (nodes (net w'))" for x
  proof -
    from that assms(2) have "snd x = r \<or> x \<in> set (nodes (net w))"
      by (simp add: dict_set_entry)
    then show ?thesis
      using assms(1,3,4) by (auto simp: wf_world_def list_all_iff dict_values_def)
  qed
  then show ?thesis
    by (simp add: wf_world_def list_all_iff dict_values_def)
qed

lemma dict_getitem_dict_set:
  "dict_getitem (dict_set k v d) k' = (if k' = k then Inr v else dict_getitem d k')"
  by (simp add: dict_getitem_def map_of_dict_set)

lemma wf_world_new: "wf_world new_world"
  by (simp add: wf_world_def new_world_def Network_init_def dict_values_def)

lemma wf_world_fresh: "wf_world w \<Longrightarrow> next_ref w \<notin> set (dict_values (nodes (net w)))"
  by (auto simp: wf_world_def list_all_iff)

lemma add_node_Address:
  assumes "import_any description = Inr od"
  shows "\<exists>n. Node_init import_any (next_ref w) a description = Inr n
           \<and> add_node import_any w (Address a) description =
               Inr (next_ref w,
                    w\<lparr>heap := (heap w)(next_ref w := n\<lparr>network := Some This_network\<rparr>),
                      next_ref := Suc (next_ref w),
                      net := (net w)\<lparr>nodes := dict_set a (next_ref w) (nodes (net w))\<rparr>\<rparr>)
           \<and> id' n = a \<and> object_dictionary n = od
           \<and> service_callbacks n =
               [(0x580, Sdo_on_response (next_ref w)), (0x700, Nmt_on_response (next_ref w))]"
  using assms by (simp add: add_node_def Node_new_def Node_init_Inr Let_def)

lemma add_node_resolution_error:
  "import_any description = Inl e \<Longrightarrow> add_node import_any w (Address a) description = Inl e"
  by (simp add: add_node_def Node_new_def Node_init_Inl)

lemma add_node_Object:
  "add_node import_any w (Object r) description =
     Inr (r, w\<lparr>heap := (heap w)(r := (heap w r)\<lparr>network := Some This_network\<rparr>),
              net := (net w)\<lparr>nodes := dict_set (id' (heap w r)) r (nodes (net w))\<rparr>\<rparr>)"
  by (simp add: add_node_def Let_def)

lemma wf_world_add_node:
  assumes "wf_world w" and "add_node import_any w node description = Inr (r, w')"
    and "\<forall>r0. node = Object r0 \<longrightarrow> r0 < next_ref w"
  shows "wf_world w'"
proof (cases node)
  case (Address a)
  then obtain od where od: "import_any description = Inr od"
    using assms(2) by (cases "import_any description") (simp_all add: add_node_resolution_error)
  from add_node_Address
    [where import_any = import_any and description = description and od = od and w = w
       and a = a, OF od]
    assms(2) Address
  have w': "nodes (net w') = dict_set a (next_ref w) (nodes (net w))"
    "next_ref w' = Suc (next_ref w)"
    by auto
  show ?thesis
    using assms(1) w'(1) by (rule wf_world_dict_set) (simp_all add: w'(2))
next
  case (Object r0)
  then have w': "nodes (net w') = dict_set (id' (heap w r0)) r0 (nodes (net w))"
    "next_ref w' = next_ref w"
    using assms(2) by (auto simp: add_node_Object)
  have "r0 < next_ref w"
    using assms(3) Object by simp
  with assms(1) w'(1) show ?thesis
    by (intro wf_world_dict_set [of w w']) (simp_all add: w'(2))
qed

lemma put_message_nodes:
  assumes "put_message returning w can_id dat = Inr w'"
  shows "\<exists>calls. w' = w\<lparr>invoked := invoked w @ calls\<rparr>
           \<and> fst ` set calls \<subseteq> set (dict_values (nodes (net w)))"
proof -
  define calls where "calls =
    (if can_id AND 0x7F = 0
     then concat (map (matching w can_id dat) (dict_values (nodes (net w))))
     else case map_of (nodes (net w)) (can_id AND 0x7F) of
            None \<Rightarrow> []
          | Some node \<Rightarrow> matching w can_id dat node)"
  have w': "w' = w\<lparr>invoked := invoked w @ calls\<rparr>"
    using assms unfolding calls_def put_message_eq by simp
  have m: "fst x = r" if "x \<in> set (matching w can_id dat r)" for x r
    using that by (auto simp: matching_def split: option.splits)
  have "fst x \<in> set (dict_values (nodes (net w)))" if x: "x \<in> set calls" for x
  proof (cases "can_id AND 0x7F = 0")
    case True
    with x obtain r where "r \<in> set (dict_values (nodes (net w)))"
      and "x \<in> set (matching w can_id dat r)"
      by (auto simp: calls_def)
    then show ?thesis
      using m by simp
  next
    case False
    with x obtain r where r: "map_of (nodes (net w)) (can_id AND 0x7F) = Some r"
      and "x \<in> set (matching w can_id dat r)"
      by (cases "map_of (nodes (net w)) (can_id AND 0x7F)") (simp_all add: calls_def)
    then have "fst x = r"
      using m by simp
    moreover have "(can_id AND 0x7F, r) \<in> set (nodes (net w))"
      using r by (rule map_of_SomeD)
    then have "snd (can_id AND 0x7F, r) \<in> snd ` set (nodes (net w))"
      by (rule imageI)
    ultimately show ?thesis
      by (simp add: dict_values_def)
  qed
  with w' show ?thesis
    by blast
qed

text \<open>
  C5: \<^verbatim>\<open>add_node\<close> with a bare integer \<open>a\<close> and a description that resolves builds
  a new Node with id \<open>a\<close> and the resolved description, sets its back-reference to the
  Network, stores it in the registry under \<open>a\<close> (in the place of any Node that was
  there; the other keys keep their Nodes) and returns it. After a second
  \<^verbatim>\<open>add_node\<close> for the same address the registry holds the second Node under \<open>a\<close>
  and the first one nowhere: no frame, whatever its identifier, is delivered to the
  first Node any more, and a frame for address \<open>a\<close> is delivered to the second Node
  only (whatever the callables do, routing such a frame is delivering it to the second
  Node; with callables that just return, the log shows the calls made).
\<close>

theorem add_node_replaces:
  fixes w :: "'od world"
  assumes "wf_world w"
    and "import_any d1 = Inr od1"
    and "import_any d2 = Inr od2"
  shows "\<exists>w1 w2 r1 r2.
           add_node import_any w (Address a) d1 = Inr (r1, w1)
         \<and> add_node import_any w1 (Address a) d2 = Inr (r2, w2)
         \<and> id' (heap w1 r1) = a \<and> object_dictionary (heap w1 r1) = od1
         \<and> network (heap w1 r1) = Some This_network
         \<and> nodes (net w1) = dict_set a r1 (nodes (net w))
         \<and> dict_getitem (nodes (net w1)) a = Inr r1
         \<and> (\<forall>k. k \<noteq> a \<longrightarrow> dict_getitem (nodes (net w1)) k = dict_getitem (nodes (net w)) k)
         \<and> r1 = next_ref w \<and> r2 = Suc r1
         \<and> id' (heap w2 r2) = a \<and> object_dictionary (heap w2 r2) = od2
         \<and> network (heap w2 r2) = Some This_network
         \<and> service_callbacks (heap w2 r2) = [(0x580, Sdo_on_response r2), (0x700, Nmt_on_response r2)]
         \<and> heap w2 r1 = heap w1 r1
         \<and> dict_getitem (nodes (net w2)) a = Inr r2
         \<and> r1 \<notin> set (dict_values (nodes (net w2)))
         \<and> (\<forall>can_id dat. \<exists>calls.
               put_message returning w2 can_id dat =
                 Inr (w2\<lparr>invoked := invoked w2 @ calls\<rparr>)
             \<and> r1 \<notin> fst ` set calls)
         \<and> (\<forall>can_id dat. can_id AND 0x7F = a \<and> a \<noteq> 0 \<longrightarrow>
               put_message returning w2 can_id dat =
                 Inr (w2\<lparr>invoked := invoked w2 @ matching w2 can_id dat r2\<rparr>))
         \<and> (\<forall>run can_id dat. can_id AND 0x7F = a \<and> a \<noteq> 0 \<longrightarrow>
               put_message run w2 can_id dat = call_on_message run w2 r2 can_id dat)
         \<and> wf_world w2"
proof -
  define r1 where "r1 = next_ref w"
  from add_node_Address
    [where import_any = import_any and description = d1 and od = od1 and w = w and a = a,
     OF assms(2)]
  obtain n1 where
    n1: "id' n1 = a" "object_dictionary n1 = od1" and
    a1: "add_node import_any w (Address a) d1 =
          Inr (r1, w\<lparr>heap := (heap w)(r1 := n1\<lparr>network := Some This_network\<rparr>),
                    next_ref := Suc r1,
                    net := (net w)\<lparr>nodes := dict_set a r1 (nodes (net w))\<rparr>\<rparr>)"
    unfolding r1_def by blast
  define w1 where "w1 = w\<lparr>heap := (heap w)(r1 := n1\<lparr>network := Some This_network\<rparr>),
                    next_ref := Suc r1,
                    net := (net w)\<lparr>nodes := dict_set a r1 (nodes (net w))\<rparr>\<rparr>"
  define r2 where "r2 = next_ref w1"
  have r21: "r2 = Suc r1"
    by (simp add: r2_def w1_def)
  from add_node_Address
    [where import_any = import_any and description = d2 and od = od2 and w = w1 and a = a,
     OF assms(3)]
  obtain n2 where
    n2: "id' n2 = a" "object_dictionary n2 = od2"
      "service_callbacks n2 = [(0x580, Sdo_on_response r2), (0x700, Nmt_on_response r2)]" and
    a2: "add_node import_any w1 (Address a) d2 =
          Inr (r2, w1\<lparr>heap := (heap w1)(r2 := n2\<lparr>network := Some This_network\<rparr>),
                     next_ref := Suc r2,
                     net := (net w1)\<lparr>nodes := dict_set a r2 (nodes (net w1))\<rparr>\<rparr>)"
    unfolding r2_def by blast
  define w2 where "w2 = w1\<lparr>heap := (heap w1)(r2 := n2\<lparr>network := Some This_network\<rparr>),
                     next_ref := Suc r2,
                     net := (net w1)\<lparr>nodes := dict_set a r2 (nodes (net w1))\<rparr>\<rparr>"
  have wf1: "wf_world w1"
    using wf_world_add_node [OF assms(1) a1 [folded w1_def]] by simp
  have wf2: "wf_world w2"
    using wf_world_add_node [OF wf1 a2 [folded w2_def]] by simp
  have reg1: "nodes (net w1) = dict_set a r1 (nodes (net w))"
    by (simp add: w1_def)
  have reg2: "nodes (net w2) = dict_set a r2 (nodes (net w))"
    by (simp add: w2_def reg1 dict_set_twice)
  have fresh: "r1 \<notin> set (dict_values (nodes (net w)))"
    unfolding r1_def using assms(1) by (rule wf_world_fresh)
  have gone: "r1 \<notin> set (dict_values (nodes (net w2)))"
    using fresh values_dict_set [of a r2 "nodes (net w)"] r21
    by (auto simp: reg2)
  have unreachable: "\<exists>calls.
        put_message returning w2 can_id dat = Inr (w2\<lparr>invoked := invoked w2 @ calls\<rparr>)
      \<and> r1 \<notin> fst ` set calls" for can_id dat
  proof -
    obtain w3 where w3: "put_message returning w2 can_id dat = Inr w3"
      by (simp add: put_message_eq)
    from put_message_nodes [OF w3] gone w3 show ?thesis
      by auto
  qed
  have unicast: "can_id AND 0x7F = a \<and> a \<noteq> 0 \<longrightarrow>
        put_message returning w2 can_id dat =
          Inr (w2\<lparr>invoked := invoked w2 @ matching w2 can_id dat r2\<rparr>)"
    for can_id dat
    by (simp add: put_message_eq reg2 map_of_dict_set)
  have unicast_any: "can_id AND 0x7F = a \<and> a \<noteq> 0 \<longrightarrow>
        put_message run w2 can_id dat = call_on_message run w2 r2 can_id dat"
    for run can_id dat
    by (auto simp: put_message_unicast_eq reg2 map_of_dict_set)
  have "add_node import_any w (Address a) d1 = Inr (r1, w1)
      \<and> add_node import_any w1 (Address a) d2 = Inr (r2, w2)
      \<and> id' (heap w1 r1) = a \<and> object_dictionary (heap w1 r1) = od1
      \<and> network (heap w1 r1) = Some This_network
      \<and> nodes (net w1) = dict_set a r1 (nodes (net w))
      \<and> dict_getitem (nodes (net w1)) a = Inr r1
      \<and> (\<forall>k. k \<noteq> a \<longrightarrow> dict_getitem (nodes (net w1)) k = dict_getitem (nodes (net w)) k)
      \<and> r1 = next_ref w \<and> r2 = Suc r1
      \<and> id' (heap w2 r2) = a \<and> object_dictionary (heap w2 r2) = od2
      \<and> network (heap w2 r2) = Some This_network
      \<and> service_callbacks (heap w2 r2) = [(0x580, Sdo_on_response r2), (0x700, Nmt_on_response r2)]
      \<and> heap w2 r1 = heap w1 r1
      \<and> dict_getitem (nodes (net w2)) a = Inr r2"
    using a1 a2 n1 n2 r21 r1_def
    by (simp add: w1_def [symmetric] w2_def [symmetric])
       (simp add: w1_def w2_def dict_getitem_dict_set)
  with gone unreachable unicast unicast_any wf2 show ?thesis
    by blast
qed

theorem add_node_replaces_witness:
  "wf_world (new_world :: unit world)
   \<and> (\<exists>w1 w2. add_node Inr (new_world :: unit world) (Address 5) () = Inr (0, w1)
         \<and> add_node Inr w1 (Address 5) () = Inr (1, w2)
         \<and> dict_getitem (nodes (net w2)) 5 = Inr 1
         \<and> 0 \<notin> set (dict_values (nodes (net w2)))
         \<and> put_message returning w2 0x705 [5] =
             Inr (w2\<lparr>invoked := invoked w2 @ [(1, Nmt_on_response 1, 0x705, [5])]\<rparr>))"
proof -
  have wf: "wf_world (new_world :: unit world)"
    by (rule wf_world_new)
  have res: "(Inr :: unit \<Rightarrow> error + unit) () = Inr ()"
    by simp
  from add_node_replaces
    [where w = "new_world :: unit world" and import_any = Inr and ?d1.0 = "()" and ?d2.0 = "()"
       and ?od1.0 = "()" and ?od2.0 = "()" and a = 5, OF wf res res]
  obtain w1 w2 :: "unit world" and r1 r2 where
    "add_node Inr (new_world :: unit world) (Address 5) () = Inr (r1, w1)"
    "add_node Inr w1 (Address 5) () = Inr (r2, w2)"
    "r1 = next_ref (new_world :: unit world)" "r2 = Suc r1"
    "service_callbacks (heap w2 r2) = [(0x580, Sdo_on_response r2), (0x700, Nmt_on_response r2)]"
    "dict_getitem (nodes (net w2)) 5 = Inr r2"
    "r1 \<notin> set (dict_values (nodes (net w2)))"
    "\<forall>can_id dat. can_id AND 0x7F = 5 \<and> (5 :: int) \<noteq> 0 \<longrightarrow>
        put_message returning w2 can_id dat =
          Inr (w2\<lparr>invoked := invoked w2 @ matching w2 can_id dat r2\<rparr>)"
    by blast
  moreover from this have "put_message returning w2 0x705 [5] =
          Inr (w2\<lparr>invoked := invoked w2 @ matching w2 0x705 [5] r2\<rparr>)"
    by simp
  ultimately have "add_node Inr (new_world :: unit world) (Address 5) () = Inr (0, w1)
         \<and> add_node Inr w1 (Address 5) () = Inr (1, w2)
         \<and> dict_getitem (nodes (net w2)) 5 = Inr 1
         \<and> 0 \<notin> set (dict_values (nodes (net w2)))
         \<and> put_message returning w2 0x705 [5] =
             Inr (w2\<lparr>invoked := invoked w2 @ [(1, Nmt_on_response 1, 0x705, [5])]\<rparr>)"
    by (simp add: new_world_def matching_def)
  with wf show ?thesis
    by blast
qed

end
